theory Spec2Isabelle
  imports Main "HOL-Library.Sublist"
begin

section \<open>Python strings\<close>

text \<open>
  A Python \<open>str\<close> is modelled as a \<open>string\<close> (a \<open>char list\<close>); a \<open>char\<close> stands for
  the code point of the same number, so the model covers the strings whose code points
  are below 256. The tables below (white space, line boundaries, digits) are those of
  CPython for that range.
\<close>

abbreviation (input) BSL :: char where
  "BSL \<equiv> CHR 0x5C"

abbreviation (input) LF :: char where
  "LF \<equiv> CHR 0x0A"

abbreviation (input) CR :: char where
  "CR \<equiv> CHR 0x0D"

datatype py_exception =
    ImportError
  | FileNotFoundError
  | PermissionError
  | UnicodeDecodeError
  | ValueError
  | IndexError

text \<open>\<open>x in s\<close> on two strings: \<open>x\<close> occurs in \<open>s\<close> as a contiguous substring.\<close>

fun py_in :: "string \<Rightarrow> string \<Rightarrow> bool" where
  "py_in x [] = (x = [])"
| "py_in x (c # cs) = (prefix x (c # cs) \<or> py_in x cs)"

text \<open>
  \<open>s.replace(old, new)\<close>: the occurrences of \<open>old\<close> are found from the left, never
  overlapping, and each is replaced by \<open>new\<close>. With an empty \<open>old\<close>, \<open>new\<close> is put
  before every character and at the end.
\<close>

function replace_from :: "string \<Rightarrow> string \<Rightarrow> string \<Rightarrow> string" where
  "replace_from old new [] = []"
| "replace_from old new (c # cs) =
     (if old \<noteq> [] \<and> prefix old (c # cs)
      then new @ replace_from old new (drop (length old) (c # cs))
      else c # replace_from old new cs)"
  by pat_completeness auto
termination
  by (relation "measure (\<lambda>(old, new, s). length s)") auto

definition py_replace :: "string \<Rightarrow> string \<Rightarrow> string \<Rightarrow> string" where
  "py_replace old new s =
     (if old = [] then new @ concat (map (\<lambda>c. c # new) s) else replace_from old new s)"

section \<open>The pattern translator\<close>

text \<open>
  \<open>Ripit._convert_pattern\<close> of \<open>ripit.py\<close>: nine calls of \<open>str.replace\<close>, each on the
  result of the one before. The raw literals \<open>r'\('\<close>, \<open>r'\w+'\<close> and the like are a
  backslash followed by the other characters.
\<close>

definition convert_pattern :: "string \<Rightarrow> string" where
  "convert_pattern pattern0 =
     (let pattern = py_replace ''('' (BSL # ''('') pattern0;
          pattern = py_replace '')'' (BSL # '')'') pattern;
          pattern = py_replace ''['' (BSL # ''['') pattern;
          pattern = py_replace '']'' (BSL # '']'') pattern;
          pattern = py_replace ''{'' (BSL # ''{'') pattern;
          pattern = py_replace ''}'' (BSL # ''}'') pattern;
          pattern = py_replace ''<>'' ''.*'' pattern;
          pattern = py_replace ''<name>'' (BSL # ''w+'') pattern;
          pattern = py_replace ''<num>'' (BSL # ''d+'') pattern
      in pattern)"

section \<open>More of Python's string library\<close>

text \<open>
  \<open>str.splitlines()\<close>: a line ends at a line boundary (a carriage return followed by
  a line feed counts as one), the boundaries are dropped, and an unfinished last line is
  kept unless it is empty.
\<close>

definition is_linebreak :: "char \<Rightarrow> bool" where
  "is_linebreak c \<longleftrightarrow>
     c \<in> set [LF, CHR 0x0B, CHR 0x0C, CR, CHR 0x1C, CHR 0x1D, CHR 0x1E, CHR 0x85]"

function splitlines_from :: "string \<Rightarrow> string \<Rightarrow> string list" where
  "splitlines_from cur [] = (if cur = [] then [] else [cur])"
| "splitlines_from cur (c # cs) =
     (if c = CR \<and> cs \<noteq> [] \<and> hd cs = LF then cur # splitlines_from [] (tl cs)
      else if is_linebreak c then cur # splitlines_from [] cs
      else splitlines_from (cur @ [c]) cs)"
  by pat_completeness auto
termination
  by (relation "measure (\<lambda>(cur, s). length s)") auto

definition py_splitlines :: "string \<Rightarrow> string list" where
  "py_splitlines s = splitlines_from [] s"

text \<open>\<open>str.isspace\<close> on one character, and \<open>str.strip()\<close> with no argument.\<close>

definition isspace :: "char \<Rightarrow> bool" where
  "isspace c \<longleftrightarrow>
     c \<in> set [CHR 0x09, LF, CHR 0x0B, CHR 0x0C, CR, CHR 0x1C, CHR 0x1D, CHR 0x1E, CHR 0x1F,
               CHR 0x20, CHR 0x85, CHR 0xA0]"

definition py_strip :: "string \<Rightarrow> string" where
  "py_strip s = rev (dropWhile isspace (rev (dropWhile isspace s)))"

text \<open>
  \<open>s.split(sep)\<close>: the fields between the occurrences of \<open>sep\<close>, found from the left
  and never overlapping; an empty separator is a \<open>ValueError\<close>.
\<close>

function split_from :: "string \<Rightarrow> string \<Rightarrow> string \<Rightarrow> string list" where
  "split_from sep cur [] = [cur]"
| "split_from sep cur (c # cs) =
     (if sep \<noteq> [] \<and> prefix sep (c # cs)
      then cur # split_from sep [] (drop (length sep) (c # cs))
      else split_from sep (cur @ [c]) cs)"
  by pat_completeness auto
termination
  by (relation "measure (\<lambda>(sep, cur, s). length s)") auto

definition py_split :: "string \<Rightarrow> string \<Rightarrow> py_exception + string list" where
  "py_split sep s = (if sep = [] then Inl ValueError else Inr (split_from sep [] s))"

text \<open>\<open>xs[i]\<close>: a negative index counts from the end, an index out of range raises.\<close>

definition py_getitem :: "'a list \<Rightarrow> int \<Rightarrow> py_exception + 'a" where
  "py_getitem xs i =
     (let k = (if i < 0 then i + int (length xs) else i)
      in if k < 0 \<or> int (length xs) \<le> k then Inl IndexError else Inr (xs ! nat k))"

text \<open>
  \<open>int(s)\<close> on a string, in base ten: white space around the number is skipped (the
  separators \<open>0x1C\<close> to \<open>0x1F\<close> are not white space here), one sign is allowed, and
  the digits may be grouped by single underscores. Every failure is a \<open>ValueError\<close>.
  The first parameter is the interpreter's limit on the number of digits
  (\<open>sys.get_int_max_str_digits()\<close>, where 0 means no limit; interpreters older than the
  limit behave as with 0); it is only looked at for more than 640 digits.
\<close>

definition int_space :: "char \<Rightarrow> bool" where
  "int_space c \<longleftrightarrow>
     c \<in> set [CHR 0x09, LF, CHR 0x0B, CHR 0x0C, CR, CHR 0x20, CHR 0x85, CHR 0xA0]"

definition is_digit :: "char \<Rightarrow> bool" where
  "is_digit c \<longleftrightarrow> c \<in> set ''0123456789''"

definition digit_val :: "char \<Rightarrow> int" where
  "digit_val c = int (of_char c) - 48"

definition skip_sign :: "string \<Rightarrow> bool \<times> string" where
  "skip_sign s =
     (if s \<noteq> [] \<and> hd s = CHR ''-'' then (True, tl s)
      else if s \<noteq> [] \<and> hd s = CHR ''+'' then (False, tl s)
      else (False, s))"

definition int_digits :: "nat \<Rightarrow> string \<Rightarrow> py_exception + int" where
  "int_digits max_str_digits s =
     (let body = takeWhile (\<lambda>c. is_digit c \<or> c = CHR ''_'') s;
          rest = dropWhile (\<lambda>c. is_digit c \<or> c = CHR ''_'') s;
          digits = filter is_digit body
      in if body = [] \<or> hd body = CHR ''_'' \<or> last body = CHR ''_'' \<or> py_in ''__'' body
         then Inl ValueError
         else if dropWhile int_space rest \<noteq> [] then Inl ValueError
         else if 640 < length digits \<and> 0 < max_str_digits \<and> max_str_digits < length digits
         then Inl ValueError
         else Inr (foldl (\<lambda>a c. 10 * a + digit_val c) 0 digits))"

definition py_int :: "nat \<Rightarrow> string \<Rightarrow> py_exception + int" where
  "py_int max_str_digits s =
     (case skip_sign (dropWhile int_space s) of
        (negative, unsigned) \<Rightarrow>
          (case int_digits max_str_digits unsigned of
             Inl e \<Rightarrow> Inl e
           | Inr n \<Rightarrow> Inr (if negative then - n else n)))"

section \<open>The searcher\<close>

text \<open>
  What the program gets from outside: \<open>shutil.which\<close>, the outcome of
  \<open>subprocess.run\<close> on a command (it may depend on the commands run before), and the
  interpreter's digit limit. \<open>subprocess.run\<close> with \<open>check=False\<close> either returns
  the completed process, whatever its exit status, or raises.
\<close>

record completed_process =
  returncode :: int
  stdout :: string
  stderr :: string

record os_env =
  which :: "string \<Rightarrow> string option"
  subprocess_run :: "string list list \<Rightarrow> string list \<Rightarrow> py_exception + completed_process"
  int_max_str_digits :: nat

text \<open>
  The class \<open>Ripit\<close> has one field. The state threaded through the methods is the
  instance together with the commands handed to \<open>subprocess.run\<close> so far.
\<close>

record ripit =
  default_args :: "string list"

record state =
  self :: ripit
  invocations :: "string list list"

text \<open>
  \<open>_check_ripgrep\<close> and \<open>Ripit.__init__\<close>: the check comes first, then
  \<open>default_args or []\<close> is stored. The exceptions are modelled by their class, without
  the message.
\<close>

definition check_ripgrep :: "os_env \<Rightarrow> py_exception + unit" where
  "check_ripgrep env =
     (case which env ''rg'' of
        None \<Rightarrow> Inl ImportError
      | Some path \<Rightarrow> if path = [] then Inl ImportError else Inr ())"

definition init :: "os_env \<Rightarrow> string list option \<Rightarrow> py_exception + ripit" where
  "init env default_args_opt =
     (case check_ripgrep env of
        Inl e \<Rightarrow> Inl e
      | Inr _ \<Rightarrow>
          Inr \<lparr>default_args =
                 (case default_args_opt of
                    None \<Rightarrow> []
                  | Some given \<Rightarrow> if given = [] then [] else given)\<rparr>)"

text \<open>
  \<open>Ripit.search\<close>: the command is built and handed to \<open>subprocess.run\<close>; only
  \<open>FileNotFoundError\<close> is caught, and turned into an \<open>ImportError\<close>.
\<close>

definition search :: "os_env \<Rightarrow> state \<Rightarrow> string \<Rightarrow> string list \<Rightarrow> (py_exception + string) \<times> state" where
  "search env st pattern args =
     (let regex_pattern = convert_pattern pattern;
          cmd = [''rg'', regex_pattern] @ default_args (self st) @ args;
          st' = st\<lparr>invocations := invocations st @ [cmd]\<rparr>
      in case subprocess_run env (invocations st) cmd of
           Inr result \<Rightarrow> (Inr (stdout result), st')
         | Inl e \<Rightarrow> (if e = FileNotFoundError then Inl ImportError else Inl e, st'))"

text \<open>\<open>Ripit.lines\<close>: the lines of the output whose \<open>strip()\<close> is not empty.\<close>

definition lines :: "os_env \<Rightarrow> state \<Rightarrow> string \<Rightarrow> string list \<Rightarrow> (py_exception + string list) \<times> state" where
  "lines env st pattern args =
     (case search env st pattern args of
        (Inl e, st') \<Rightarrow> (Inl e, st')
      | (Inr output, st') \<Rightarrow>
          (Inr (filter (\<lambda>line. py_strip line \<noteq> []) (py_splitlines output)), st'))"

text \<open>
  \<open>Ripit.count\<close>: the search is run with \<open>-c\<close> as the first extra argument. The loop
  over the lines starts with the total 0; only the \<open>ValueError\<close> of \<open>int\<close> is
  caught.
\<close>

fun count_loop :: "nat \<Rightarrow> int \<Rightarrow> string list \<Rightarrow> py_exception + int" where
  "count_loop lim tot [] = Inr tot"
| "count_loop lim tot (line # rest) =
     (if py_in '':'' line then
        (case py_split '':'' line of
           Inl e \<Rightarrow> Inl e
         | Inr parts \<Rightarrow>
             (case py_getitem parts (- 1) of
                Inl e \<Rightarrow> Inl e
              | Inr count_str \<Rightarrow>
                  (case py_int lim count_str of
                     Inr n \<Rightarrow> count_loop lim (tot + n) rest
                   | Inl e \<Rightarrow> if e = ValueError then count_loop lim tot rest else Inl e)))
      else count_loop lim tot rest)"

definition count :: "os_env \<Rightarrow> state \<Rightarrow> string \<Rightarrow> string list \<Rightarrow> (py_exception + int) \<times> state" where
  "count env st pattern args =
     (case search env st pattern (''-c'' # args) of
        (Inl e, st') \<Rightarrow> (Inl e, st')
      | (Inr output, st') \<Rightarrow>
          (count_loop (int_max_str_digits env) 0 (py_splitlines output), st'))"

text \<open>A client: any sequence of method calls on one instance, going on after an exception.\<close>

datatype call =
    Search string "string list"
  | Lines string "string list"
  | Count string "string list"

fun do_call :: "os_env \<Rightarrow> state \<Rightarrow> call \<Rightarrow> state" where
  "do_call env st (Search pattern args) = snd (search env st pattern args)"
| "do_call env st (Lines pattern args) = snd (lines env st pattern args)"
| "do_call env st (Count pattern args) = snd (count env st pattern args)"

fun do_calls :: "os_env \<Rightarrow> state \<Rightarrow> call list \<Rightarrow> state" where
  "do_calls env st [] = st"
| "do_calls env st (c # cs) = do_calls env (do_call env st c) cs"

section \<open>Notions used to state the properties\<close>

subsection \<open>The translator as a sequence of six steps\<close>

text \<open>
  Escaping a set of characters: each of them gets a backslash in front. The six steps
  escape the parentheses, the square brackets and the curly braces, and then replace the
  three placeholders, each step on the result of the one before.
\<close>

definition escape_chars :: "string \<Rightarrow> string \<Rightarrow> string" where
  "escape_chars special s = concat (map (\<lambda>c. if c \<in> set special then [BSL, c] else [c]) s)"

definition spec_translate :: "string \<Rightarrow> string" where
  "spec_translate p =
     (let step1 = escape_chars ''()'' p;
          step2 = escape_chars ''[]'' step1;
          step3 = escape_chars ''{}'' step2;
          step4 = py_replace ''<>'' ''.*'' step3;
          step5 = py_replace ''<name>'' (BSL # ''w+'') step4;
          step6 = py_replace ''<num>'' (BSL # ''d+'') step5
      in step6)"

subsection \<open>Escaped characters of a regular expression\<close>

text \<open>
  In a regular expression a backslash escapes the character after it, also another
  backslash. So the character at position \<open>i\<close> is escaped exactly when the run of
  backslashes that ends just before \<open>i\<close> has odd length.
\<close>

definition brackets :: string where
  "brackets = ''()[]{}''"

definition backslash_run :: "string \<Rightarrow> nat" where
  "backslash_run before = length (takeWhile (\<lambda>c. c = BSL) (rev before))"

definition escaped_at :: "string \<Rightarrow> nat \<Rightarrow> bool" where
  "escaped_at s i \<longleftrightarrow> odd (backslash_run (take i s))"

text \<open>
  Two scans from the left, used in the proofs. In \<open>bracket_scan f b\<close> the flag \<open>b\<close>
  tells whether the character before the current one counts as an escape, and \<open>f\<close> says
  how a backslash changes the flag: with \<open>\<lambda>_. True\<close> every backslash counts, with
  \<open>Not\<close> only those that are not themselves escaped. The scan succeeds if every bracket
  is met with the flag set; \<open>unescaped_scan\<close> succeeds if every bracket is met with the
  flag of the second kind not set.
\<close>

fun bracket_scan :: "(bool \<Rightarrow> bool) \<Rightarrow> bool \<Rightarrow> string \<Rightarrow> bool" where
  "bracket_scan f b [] = True"
| "bracket_scan f b (c # cs) =
     ((c \<in> set brackets \<longrightarrow> b) \<and> bracket_scan f (c = BSL \<and> f b) cs)"

fun unescaped_scan :: "bool \<Rightarrow> string \<Rightarrow> bool" where
  "unescaped_scan b [] = True"
| "unescaped_scan b (c # cs) =
     ((c \<in> set brackets \<longrightarrow> \<not> b) \<and> unescaped_scan (c = BSL \<and> \<not> b) cs)"

subsection \<open>Lines and counts\<close>

text \<open>A line is blank if it is empty or has white space only.\<close>

definition blank_line :: "string \<Rightarrow> bool" where
  "blank_line line \<longleftrightarrow> line = [] \<or> list_all isspace line"

text \<open>
  The last field of a line, with the colon as the delimiter: what follows the last colon,
  the whole line if there is none. \<open>parsed_count\<close> is its value as an integer, and 0 if
  it is not one; \<open>spec_count\<close> adds the values of all the lines of an output.
\<close>

definition last_field :: "string \<Rightarrow> string" where
  "last_field line = rev (takeWhile (\<lambda>c. c \<noteq> CHR '':'') (rev line))"

definition parsed_count :: "nat \<Rightarrow> string \<Rightarrow> int" where
  "parsed_count lim line = (case py_int lim (last_field line) of Inr n \<Rightarrow> n | Inl e \<Rightarrow> 0)"

definition spec_count :: "nat \<Rightarrow> string \<Rightarrow> int" where
  "spec_count lim output = sum_list (map (parsed_count lim) (py_splitlines output))"

subsection \<open>Commands and environments\<close>

text \<open>The command expected for a call, given the default options of the instance.\<close>

fun expected_command :: "string list \<Rightarrow> call \<Rightarrow> string list" where
  "expected_command options (Search pattern args) =
     [''rg'', convert_pattern pattern] @ options @ args"
| "expected_command options (Lines pattern args) =
     [''rg'', convert_pattern pattern] @ options @ args"
| "expected_command options (Count pattern args) =
     [''rg'', convert_pattern pattern] @ options @ [''-c''] @ args"

text \<open>
  Some environments: one where the tool is installed and every run ends with the given
  exit status and output; one without the tool; and one where the tool is installed and
  finds nothing, and where, as on every system, a command with a NUL character in an
  argument is refused with a \<open>ValueError\<close> before anything is started.
\<close>

definition fixed_output_env :: "int \<Rightarrow> string \<Rightarrow> os_env" where
  "fixed_output_env status output =
     \<lparr>which = (\<lambda>name. Some ''/usr/bin/rg''),
      subprocess_run =
        (\<lambda>history cmd. Inr \<lparr>returncode = status, stdout = output, stderr = []\<rparr>),
      int_max_str_digits = 4300\<rparr>"

definition no_rg_env :: os_env where
  "no_rg_env =
     \<lparr>which = (\<lambda>name. None),
      subprocess_run = (\<lambda>history cmd. Inl FileNotFoundError),
      int_max_str_digits = 4300\<rparr>"

definition nul_rejecting_env :: os_env where
  "nul_rejecting_env =
     \<lparr>which = (\<lambda>name. Some ''/usr/bin/rg''),
      subprocess_run =
        (\<lambda>history cmd.
           if list_ex (\<lambda>arg. CHR 0x00 \<in> set arg) cmd then Inl ValueError
           else Inr \<lparr>returncode = 1, stdout = [], stderr = []\<rparr>),
      int_max_str_digits = 4300\<rparr>"

text \<open>
  Two more: one whose tool prints the command it was started with, one argument on each
  line, and one where the text that the tool writes cannot be decoded, so that
  \<open>subprocess.run\<close> with \<open>text=True\<close> raises a \<open>UnicodeDecodeError\<close>.
\<close>

definition echo_env :: os_env where
  "echo_env =
     \<lparr>which = (\<lambda>name. Some ''/usr/bin/rg''),
      subprocess_run =
        (\<lambda>history cmd.
           Inr \<lparr>returncode = 0, stdout = concat (map (\<lambda>arg. arg @ [LF]) cmd), stderr = []\<rparr>),
      int_max_str_digits = 4300\<rparr>"

definition undecodable_output_env :: os_env where
  "undecodable_output_env =
     \<lparr>which = (\<lambda>name. Some ''/usr/bin/rg''),
      subprocess_run = (\<lambda>history cmd. Inl UnicodeDecodeError),
      int_max_str_digits = 4300\<rparr>"

text \<open>The state just after an instance with the given options was made.\<close>

definition fresh :: "string list \<Rightarrow> state" where
  "fresh options = \<lparr>self = \<lparr>default_args = options\<rparr>, invocations = []\<rparr>"


section \<open>Lemmas on the translator\<close>

lemma py_replace_single: "py_replace [c] [BSL, c] s = escape_chars [c] s"
  by (induction s) (auto simp: py_replace_def escape_chars_def)

lemma escape_chars_Cons:
  "escape_chars A (x # xs) = (if x \<in> set A then [BSL, x] else [x]) @ escape_chars A xs"
  by (simp add: escape_chars_def)

lemma escape_chars_Nil: "escape_chars A [] = []"
  by (simp add: escape_chars_def)

lemma escape_chars_twice:
  assumes "BSL \<notin> set B" and "set A \<inter> set B = {}"
  shows "escape_chars B (escape_chars A s) = escape_chars (A @ B) s"
  using assms by (induction s) (auto simp: escape_chars_Cons escape_chars_Nil)

lemma escape_pair:
  assumes "c \<noteq> d" and "d \<noteq> BSL"
  shows "py_replace [d] [BSL, d] (py_replace [c] [BSL, c] s) = escape_chars [c, d] s"
  using assms escape_chars_twice [of "[d]" "[c]" s] by (simp add: py_replace_single)

lemma convert_pattern_escape_all:
  "convert_pattern p =
     py_replace ''<num>'' (BSL # ''d+'') (py_replace ''<name>'' (BSL # ''w+'')
       (py_replace ''<>'' ''.*'' (escape_chars ''()[]{}'' p)))"
  by (simp add: convert_pattern_def escape_pair escape_chars_twice)

lemma replace_from_absent: "\<not> py_in old s \<Longrightarrow> replace_from old new s = s"
  by (induction s) auto

lemma py_replace_absent: "old \<noteq> [] \<Longrightarrow> \<not> py_in old s \<Longrightarrow> py_replace old new s = s"
  by (simp add: py_replace_def replace_from_absent)

lemma py_in_single: "py_in [c] s \<longleftrightarrow> c \<in> set s"
  by (induction s) auto


section \<open>Lemmas on escaped brackets\<close>

lemma backslash_run_snoc:
  "backslash_run (pre @ [c]) = (if c = BSL then Suc (backslash_run pre) else 0)"
  by (simp add: backslash_run_def)

lemma bracket_scan_skip:
  "xs \<noteq> [] \<Longrightarrow> set xs \<inter> set brackets = {} \<Longrightarrow> last xs \<noteq> BSL \<Longrightarrow>
     bracket_scan f b (xs @ ys) = bracket_scan f False ys"
proof (induction xs arbitrary: b)
  case Nil
  then show ?case by simp
next
  case (Cons x xs)
  show ?case
  proof (cases "xs = []")
    case True
    with Cons.prems show ?thesis by simp
  next
    case False
    with Cons.prems have "bracket_scan f (x = BSL \<and> f b) (xs @ ys) = bracket_scan f False ys"
      by (intro Cons.IH) auto
    with Cons.prems show ?thesis by simp
  qed
qed

lemma prefix_drop: "prefix old s \<Longrightarrow> s = old @ drop (length old) s"
  by (auto simp: prefix_def)

lemma bracket_scan_replace_from:
  assumes old: "set old \<inter> set brackets = {}" "last old \<noteq> BSL"
    and new: "new \<noteq> []" "set new \<inter> set brackets = {}" "last new \<noteq> BSL"
  shows "bracket_scan f b s \<Longrightarrow> bracket_scan f b (replace_from old new s)"
proof (induction s arbitrary: b rule: length_induct)
  case (1 s)
  show ?case
  proof (cases s)
    case Nil
    then show ?thesis by simp
  next
    case (Cons c cs)
    show ?thesis
    proof (cases "old \<noteq> [] \<and> prefix old (c # cs)")
      case True
      define rest where "rest = drop (length old) (c # cs)"
      have split: "s = old @ rest"
        using True Cons prefix_drop [of old "c # cs"] by (simp add: rest_def)
      have shorter: "length rest < length s"
        using True split by simp
      have "bracket_scan f b (old @ rest)"
        using "1.prems" split by simp
      then have "bracket_scan f False rest"
        using True old by (simp add: bracket_scan_skip)
      then have "bracket_scan f False (replace_from old new rest)"
        using "1.IH" shorter by blast
      then have "bracket_scan f b (new @ replace_from old new rest)"
        using new by (simp add: bracket_scan_skip)
      with True Cons show ?thesis by (simp add: rest_def)
    next
      case False
      have "bracket_scan f (c = BSL \<and> f b) cs"
        using "1.prems" Cons by simp
      then have "bracket_scan f (c = BSL \<and> f b) (replace_from old new cs)"
        using "1.IH" Cons by simp
      with False "1.prems" Cons show ?thesis by auto
    qed
  qed
qed

lemma bracket_scan_py_replace:
  assumes "old \<noteq> []" "set old \<inter> set brackets = {}" "last old \<noteq> BSL"
    and "new \<noteq> []" "set new \<inter> set brackets = {}" "last new \<noteq> BSL"
    and "bracket_scan f b s"
  shows "bracket_scan f b (py_replace old new s)"
  using assms by (simp add: py_replace_def bracket_scan_replace_from)

lemma bracket_scan_convert:
  assumes "bracket_scan f b (escape_chars brackets p)"
  shows "bracket_scan f b (convert_pattern p)"
proof -
  let ?e = "escape_chars ''()[]{}'' p"
  have e: "bracket_scan f b ?e" using assms by (simp add: brackets_def)
  have 1: "bracket_scan f b (py_replace ''<>'' ''.*'' ?e)"
    by (rule bracket_scan_py_replace [OF _ _ _ _ _ _ e]) (simp_all add: brackets_def)
  have 2: "bracket_scan f b (py_replace ''<name>'' (BSL # ''w+'') (py_replace ''<>'' ''.*'' ?e))"
    by (rule bracket_scan_py_replace [OF _ _ _ _ _ _ 1]) (simp_all add: brackets_def)
  have "bracket_scan f b (py_replace ''<num>'' (BSL # ''d+'')
          (py_replace ''<name>'' (BSL # ''w+'') (py_replace ''<>'' ''.*'' ?e)))"
    by (rule bracket_scan_py_replace [OF _ _ _ _ _ _ 2]) (simp_all add: brackets_def)
  then show ?thesis by (simp add: convert_pattern_escape_all)
qed

lemma BSL_not_bracket: "BSL \<notin> set brackets"
  by (simp add: brackets_def)

lemma guarded_escape: "bracket_scan (\<lambda>_. True) b (escape_chars brackets p)"
  by (induction p arbitrary: b) (simp_all add: escape_chars_Cons escape_chars_Nil BSL_not_bracket)

lemma escaped_escape:
  "unescaped_scan b p \<Longrightarrow> bracket_scan Not b (escape_chars brackets p)"
proof (induction p arbitrary: b)
  case Nil
  then show ?case by (simp add: escape_chars_Nil)
next
  case (Cons c cs)
  from Cons.prems have rest: "bracket_scan Not (c = BSL \<and> \<not> b) (escape_chars brackets cs)"
    by (intro Cons.IH) simp
  show ?case
  proof (cases "c \<in> set brackets")
    case True
    then have "c \<noteq> BSL" using BSL_not_bracket by auto
    with True Cons.prems rest show ?thesis
      by (simp add: escape_chars_Cons BSL_not_bracket)
  next
    case False
    with rest show ?thesis by (simp add: escape_chars_Cons)
  qed
qed

lemma guarded_nth:
  "bracket_scan (\<lambda>_. True) b s \<Longrightarrow> i < length s \<Longrightarrow> s ! i \<in> set brackets \<Longrightarrow>
     (if i = 0 then b else s ! (i - 1) = BSL)"
proof (induction s arbitrary: b i)
  case Nil
  then show ?case by simp
next
  case (Cons c cs)
  show ?case
  proof (cases i)
    case 0
    with Cons.prems show ?thesis by simp
  next
    case (Suc j)
    with Cons.prems have "if j = 0 then c = BSL else cs ! (j - 1) = BSL"
      using Cons.IH [of "c = BSL" j] by simp
    with Suc show ?thesis by (cases j) simp_all
  qed
qed

lemma escaped_nth:
  "bracket_scan Not (odd (backslash_run pre)) s \<Longrightarrow> i < length s \<Longrightarrow> s ! i \<in> set brackets \<Longrightarrow>
     odd (backslash_run (pre @ take i s))"
proof (induction s arbitrary: pre i)
  case Nil
  then show ?case by simp
next
  case (Cons c cs)
  show ?case
  proof (cases i)
    case 0
    with Cons.prems show ?thesis by simp
  next
    case (Suc j)
    have "bracket_scan Not (odd (backslash_run (pre @ [c]))) cs"
      using Cons.prems(1) by (auto simp: backslash_run_snoc)
    then have "odd (backslash_run ((pre @ [c]) @ take j cs))"
      using Cons.prems Suc by (intro Cons.IH) simp_all
    with Suc show ?thesis by simp
  qed
qed

lemma unescaped_scan_nth:
  "(\<forall>j<length s. s ! j \<in> set brackets \<longrightarrow> \<not> odd (backslash_run (pre @ take j s))) \<Longrightarrow>
     unescaped_scan (odd (backslash_run pre)) s"
proof (induction s arbitrary: pre)
  case Nil
  then show ?case by simp
next
  case (Cons c cs)
  have head: "c \<in> set brackets \<longrightarrow> \<not> odd (backslash_run pre)"
    using Cons.prems by (auto dest: spec [of _ 0])
  have "\<forall>j<length cs. cs ! j \<in> set brackets \<longrightarrow> \<not> odd (backslash_run ((pre @ [c]) @ take j cs))"
  proof (intro allI impI)
    fix j assume "j < length cs" "cs ! j \<in> set brackets"
    then show "\<not> odd (backslash_run ((pre @ [c]) @ take j cs))"
      using Cons.prems by (auto dest!: spec [of _ "Suc j"])
  qed
  then have "unescaped_scan (odd (backslash_run (pre @ [c]))) cs"
    by (rule Cons.IH)
  then have "unescaped_scan (c = BSL \<and> \<not> odd (backslash_run pre)) cs"
    by (cases "c = BSL") (simp_all add: backslash_run_snoc)
  with head show ?case by simp
qed


lemma prefix_before_absent:
  assumes "d \<notin> set old"
  shows "prefix old (xs @ d # ys) \<longleftrightarrow> prefix old xs"
proof
  assume "prefix old (xs @ d # ys)"
  then consider "prefix old xs" | us where "old = xs @ us" "prefix us (d # ys)"
    by (auto simp: prefix_append)
  then show "prefix old xs"
  proof cases
    case 1
    then show ?thesis .
  next
    case 2
    with assms have "us = []"
      by (cases us) auto
    with 2 show ?thesis by simp
  qed
next
  assume "prefix old xs"
  then show "prefix old (xs @ d # ys)"
    by (rule prefix_prefix)
qed

lemma replace_from_split:
  assumes "d \<notin> set old"
  shows "replace_from old new (xs @ d # ys) =
           replace_from old new xs @ d # replace_from old new ys"
proof (induction xs rule: length_induct)
  case (1 xs)
  show ?case
  proof (cases xs)
    case Nil
    have "\<not> (old \<noteq> [] \<and> prefix old (d # ys))"
      using assms by (cases old) auto
    with Nil show ?thesis by auto
  next
    case (Cons x xs')
    show ?thesis
    proof (cases "old \<noteq> [] \<and> prefix old xs")
      case True
      then have le: "length old \<le> length xs"
        by (simp add: prefix_length_le)
      have whole: "prefix old (xs @ d # ys)"
        using True by (simp add: prefix_prefix)
      have "length (drop (length old) xs) < length xs"
        using True Cons by (cases old) simp_all
      then have "replace_from old new (drop (length old) xs @ d # ys) =
          replace_from old new (drop (length old) xs) @ d # replace_from old new ys"
        using "1.IH" by blast
      moreover have "drop (length old) (xs @ d # ys) = drop (length old) xs @ d # ys"
        using le by simp
      ultimately show ?thesis
        using True whole Cons by simp
    next
      case False
      then have not_whole: "\<not> (old \<noteq> [] \<and> prefix old (xs @ d # ys))"
        using assms by (simp add: prefix_before_absent)
      have "replace_from old new (xs' @ d # ys) =
          replace_from old new xs' @ d # replace_from old new ys"
        using "1.IH" Cons by simp
      with False not_whole Cons show ?thesis by auto
    qed
  qed
qed

lemma py_replace_split:
  "old \<noteq> [] \<Longrightarrow> d \<notin> set old \<Longrightarrow>
     py_replace old new (xs @ d # ys) = py_replace old new xs @ d # py_replace old new ys"
  by (simp add: py_replace_def replace_from_split)

lemma py_replace_Cons_absent:
  "old \<noteq> [] \<Longrightarrow> d \<notin> set old \<Longrightarrow> py_replace old new (d # ys) = d # py_replace old new ys"
  using py_replace_split [of old d new "[]" ys] by (simp add: py_replace_def)

lemma convert_pattern_Nil: "convert_pattern [] = []"
  by (simp add: convert_pattern_def py_replace_def)

lemma bracket_not_in_placeholder:
  assumes "c \<in> set brackets"
  shows "c \<noteq> BSL" and "c \<notin> set ''<>''" and "c \<notin> set ''<name>''" and "c \<notin> set ''<num>''"
  using assms by (auto simp: brackets_def)

lemma convert_pattern_bracket:
  assumes "c \<in> set brackets"
  shows "convert_pattern (pre @ c # post) = convert_pattern pre @ BSL # c # convert_pattern post"
proof -
  have "escape_chars ''()[]{}'' (pre @ c # post) =
      escape_chars ''()[]{}'' pre @ BSL # c # escape_chars ''()[]{}'' post"
    using assms by (simp add: escape_chars_def brackets_def)
  then show ?thesis
    using bracket_not_in_placeholder [OF assms]
    by (simp add: convert_pattern_escape_all py_replace_split py_replace_Cons_absent)
qed

lemma convert_pattern_backslash:
  "convert_pattern (pre @ BSL # post) = convert_pattern pre @ BSL # convert_pattern post"
proof -
  have "escape_chars ''()[]{}'' (pre @ BSL # post) =
      escape_chars ''()[]{}'' pre @ BSL # escape_chars ''()[]{}'' post"
    by (simp add: escape_chars_def)
  then show ?thesis
    by (simp add: convert_pattern_escape_all py_replace_split)
qed

lemma escape_chars_last:
  "s \<noteq> [] \<Longrightarrow> escape_chars A s \<noteq> [] \<and> last (escape_chars A s) = last s"
  by (cases s rule: rev_cases) (simp_all add: escape_chars_def)

lemma replace_from_last:
  assumes "new \<noteq> []" and "last new \<noteq> BSL"
  shows "s \<noteq> [] \<Longrightarrow> last s \<noteq> BSL \<Longrightarrow>
     replace_from old new s \<noteq> [] \<and> last (replace_from old new s) \<noteq> BSL"
proof (induction s rule: length_induct)
  case (1 s)
  then obtain c cs where s: "s = c # cs"
    by (cases s) auto
  show ?case
  proof (cases "old \<noteq> [] \<and> prefix old (c # cs)")
    case True
    define rest where "rest = drop (length old) (c # cs)"
    have eq: "replace_from old new s = new @ replace_from old new rest"
      using True s by (simp add: rest_def)
    show ?thesis
    proof (cases "rest = []")
      case True
      with eq assms show ?thesis by simp
    next
      case False
      have "length rest < length s"
        using True s by (cases old) (simp_all add: rest_def)
      moreover have "last rest \<noteq> BSL"
        using False "1.prems"(2) s by (simp add: rest_def last_drop)
      ultimately have "replace_from old new rest \<noteq> [] \<and> last (replace_from old new rest) \<noteq> BSL"
        using "1.IH" False by blast
      with eq show ?thesis by simp
    qed
  next
    case False
    then have eq: "replace_from old new s = c # replace_from old new cs"
      using s by auto
    show ?thesis
    proof (cases "cs = []")
      case True
      with eq "1.prems" s show ?thesis by simp
    next
      case cs: False
      then have "replace_from old new cs \<noteq> [] \<and> last (replace_from old new cs) \<noteq> BSL"
        using "1.IH" "1.prems"(2) s by simp
      with eq show ?thesis by simp
    qed
  qed
qed

lemma py_replace_last:
  "old \<noteq> [] \<Longrightarrow> new \<noteq> [] \<Longrightarrow> last new \<noteq> BSL \<Longrightarrow> s \<noteq> [] \<Longrightarrow> last s \<noteq> BSL \<Longrightarrow>
     py_replace old new s \<noteq> [] \<and> last (py_replace old new s) \<noteq> BSL"
  by (simp add: py_replace_def replace_from_last)

lemma convert_pattern_last:
  assumes "s \<noteq> []" and "last s \<noteq> BSL"
  shows "convert_pattern s \<noteq> [] \<and> last (convert_pattern s) \<noteq> BSL"
proof -
  let ?e = "escape_chars ''()[]{}'' s"
  have e: "?e \<noteq> [] \<and> last ?e \<noteq> BSL"
    using assms escape_chars_last [of s] by simp
  have 1: "py_replace ''<>'' ''.*'' ?e \<noteq> [] \<and> last (py_replace ''<>'' ''.*'' ?e) \<noteq> BSL"
    using e by (intro py_replace_last) simp_all
  have 2: "py_replace ''<name>'' (BSL # ''w+'') (py_replace ''<>'' ''.*'' ?e) \<noteq> []
      \<and> last (py_replace ''<name>'' (BSL # ''w+'') (py_replace ''<>'' ''.*'' ?e)) \<noteq> BSL"
    using 1 by (intro py_replace_last) simp_all
  have "py_replace ''<num>'' (BSL # ''d+'')
        (py_replace ''<name>'' (BSL # ''w+'') (py_replace ''<>'' ''.*'' ?e)) \<noteq> []
      \<and> last (py_replace ''<num>'' (BSL # ''d+'')
        (py_replace ''<name>'' (BSL # ''w+'') (py_replace ''<>'' ''.*'' ?e))) \<noteq> BSL"
    using 2 by (intro py_replace_last) simp_all
  then show ?thesis
    by (simp add: convert_pattern_escape_all)
qed

lemma backslash_run_zero: "s \<noteq> [] \<Longrightarrow> last s \<noteq> BSL \<Longrightarrow> backslash_run s = 0"
  by (cases s rule: rev_cases) (simp_all add: backslash_run_def)

lemma backslash_run_convert: "backslash_run (convert_pattern s) = backslash_run s"
proof (induction s rule: rev_induct)
  case Nil
  then show ?case by (simp add: convert_pattern_Nil)
next
  case (snoc x xs)
  show ?case
  proof (cases "x = BSL")
    case True
    have "convert_pattern (xs @ [BSL]) = convert_pattern xs @ [BSL]"
      using convert_pattern_backslash [of xs "[]"] by (simp add: convert_pattern_Nil)
    with True snoc show ?thesis
      by (simp add: backslash_run_snoc)
  next
    case False
    then have "convert_pattern (xs @ [x]) \<noteq> [] \<and> last (convert_pattern (xs @ [x])) \<noteq> BSL"
      by (intro convert_pattern_last) simp_all
    then have "backslash_run (convert_pattern (xs @ [x])) = 0"
      by (simp add: backslash_run_zero)
    with False show ?thesis
      by (simp add: backslash_run_snoc)
  qed
qed

lemma filter_replace_from:
  assumes "\<forall>x\<in>set old. \<not> P x" and "\<forall>x\<in>set new. \<not> P x"
  shows "filter P (replace_from old new s) = filter P s"
proof (induction s rule: length_induct)
  case (1 s)
  show ?case
  proof (cases s)
    case Nil
    then show ?thesis by simp
  next
    case (Cons c cs)
    show ?thesis
    proof (cases "old \<noteq> [] \<and> prefix old (c # cs)")
      case True
      define rest where "rest = drop (length old) (c # cs)"
      have split: "s = old @ rest"
        using True Cons prefix_drop [of old "c # cs"] by (simp add: rest_def)
      have "length rest < length s"
        using True split by simp
      then have "filter P (replace_from old new rest) = filter P rest"
        using "1.IH" by blast
      moreover have "filter P old = []" "filter P new = []"
        using assms by (simp_all add: filter_empty_conv)
      moreover have "replace_from old new s = new @ replace_from old new rest"
        using True Cons by (simp add: rest_def)
      ultimately show ?thesis
        using split by (metis append_Nil filter_append)
    next
      case False
      have "filter P (replace_from old new cs) = filter P cs"
        using "1.IH" Cons by simp
      with False Cons show ?thesis by auto
    qed
  qed
qed

lemma filter_escape_chars:
  "\<not> P BSL \<Longrightarrow> filter P (escape_chars A s) = filter P s"
  by (induction s) (simp_all add: escape_chars_Cons escape_chars_Nil)

lemma filter_convert_pattern:
  "filter (\<lambda>c. c \<in> set brackets) (convert_pattern p) = filter (\<lambda>c. c \<in> set brackets) p"
proof -
  let ?B = "\<lambda>c. c \<in> set brackets"
  have r: "filter ?B (py_replace old new s) = filter ?B s"
    if "old \<noteq> []" "\<forall>x\<in>set old. \<not> ?B x" "\<forall>x\<in>set new. \<not> ?B x"
    for old new s
    using that by (simp add: py_replace_def filter_replace_from)
  have 1: "filter ?B (py_replace ''<>'' ''.*'' s) = filter ?B s" for s
    by (rule r) (simp_all add: brackets_def)
  have 2: "filter ?B (py_replace ''<name>'' (BSL # ''w+'') s) = filter ?B s" for s
    by (rule r) (simp_all add: brackets_def)
  have 3: "filter ?B (py_replace ''<num>'' (BSL # ''d+'') s) = filter ?B s" for s
    by (rule r) (simp_all add: brackets_def)
  have e: "filter ?B (escape_chars ''()[]{}'' p) = filter ?B p"
    using BSL_not_bracket by (rule filter_escape_chars)
  show ?thesis
    by (simp only: convert_pattern_escape_all 1 2 3 e)
qed

section \<open>Lemmas on the searcher\<close>

lemma splitlines_from_no_break:
  "\<forall>x\<in>set cur. \<not> is_linebreak x \<Longrightarrow> line \<in> set (splitlines_from cur s) \<Longrightarrow>
     \<forall>x\<in>set line. \<not> is_linebreak x"
proof (induction cur s rule: splitlines_from.induct)
  case (1 cur)
  then show ?case by (auto split: if_splits)
next
  case (2 cur c cs)
  show ?case
  proof (cases "c = CR \<and> cs \<noteq> [] \<and> hd cs = LF")
    case True
    with "2.prems" have "line = cur \<or> line \<in> set (splitlines_from [] (tl cs))"
      by auto
    with True "2.prems"(1) "2.IH"(1) show ?thesis by auto
  next
    case False
    show ?thesis
    proof (cases "is_linebreak c")
      case True
      with False "2.prems" have "line = cur \<or> line \<in> set (splitlines_from [] cs)"
        by auto
      with False True "2.prems"(1) "2.IH"(2) show ?thesis by auto
    next
      case no: False
      with False "2.prems" have "line \<in> set (splitlines_from (cur @ [c]) cs)"
        by auto
      moreover have "\<forall>x\<in>set (cur @ [c]). \<not> is_linebreak x"
        using no "2.prems"(1) by simp
      ultimately show ?thesis using False no "2.IH"(3) by blast
    qed
  qed
qed

lemma py_splitlines_no_break:
  "line \<in> set (py_splitlines s) \<Longrightarrow> c \<in> set line \<Longrightarrow> \<not> is_linebreak c"
  using splitlines_from_no_break [of "[]" line s] by (simp add: py_splitlines_def)

lemma strip_empty_iff: "py_strip line = [] \<longleftrightarrow> list_all isspace line"
proof
  assume "py_strip line = []"
  then have spaces: "\<forall>c\<in>set (dropWhile isspace line). isspace c"
    by (simp add: py_strip_def)
  have "dropWhile isspace line = []"
  proof (rule ccontr)
    assume ne: "dropWhile isspace line \<noteq> []"
    then have "\<not> isspace (hd (dropWhile isspace line))"
      by (rule hd_dropWhile)
    moreover have "hd (dropWhile isspace line) \<in> set (dropWhile isspace line)"
      using ne by (rule hd_in_set)
    ultimately show False using spaces by blast
  qed
  then show "list_all isspace line"
    by (simp add: list_all_iff)
next
  assume "list_all isspace line"
  then have "dropWhile isspace line = []"
    by (simp add: list_all_iff)
  then show "py_strip line = []"
    by (simp add: py_strip_def del: dropWhile_eq_Nil_conv)
qed

lemma strip_blank: "py_strip line \<noteq> [] \<longleftrightarrow> \<not> blank_line line"
  by (cases line) (simp_all add: strip_empty_iff blank_line_def)

lemma search_snd:
  "snd (search env st pattern args) =
     st\<lparr>invocations := invocations st @ [[''rg'', convert_pattern pattern] @ default_args (self st) @ args]\<rparr>"
  by (simp add: search_def Let_def split: sum.splits)

lemma lines_snd: "snd (lines env st pattern args) = snd (search env st pattern args)"
  by (simp add: lines_def split: prod.splits sum.splits)

lemma count_snd: "snd (count env st pattern args) = snd (search env st pattern (''-c'' # args))"
  by (simp add: count_def split: prod.splits sum.splits)

lemma lines_fst:
  "fst (lines env st pattern args) =
     (case fst (search env st pattern args) of
        Inl e \<Rightarrow> Inl e
      | Inr output \<Rightarrow> Inr (filter (\<lambda>line. py_strip line \<noteq> []) (py_splitlines output)))"
  by (simp add: lines_def split: prod.splits sum.splits)

lemma count_fst:
  "fst (count env st pattern args) =
     (case fst (search env st pattern (''-c'' # args)) of
        Inl e \<Rightarrow> Inl e
      | Inr output \<Rightarrow> count_loop (int_max_str_digits env) 0 (py_splitlines output))"
  by (simp add: count_def split: prod.splits sum.splits)

lemma search_fst:
  "fst (search env st pattern args) =
     (case subprocess_run env (invocations st)
             ([''rg'', convert_pattern pattern] @ default_args (self st) @ args) of
        Inr result \<Rightarrow> Inr (stdout result)
      | Inl e \<Rightarrow> if e = FileNotFoundError then Inl ImportError else Inl e)"
  by (simp add: search_def Let_def split: sum.splits)

lemma split_from_nonempty: "split_from sep cur s \<noteq> []"
  by (induction sep cur s rule: split_from.induct) auto

lemma last_split_from:
  "last (split_from [c] cur s) =
     (if c \<in> set s then rev (takeWhile (\<lambda>x. x \<noteq> c) (rev s)) else cur @ s)"
proof (induction s arbitrary: cur)
  case Nil
  then show ?case by simp
next
  case (Cons x xs)
  show ?case
  proof (cases "x = c")
    case True
    then show ?thesis
      using Cons.IH [of "[]"] split_from_nonempty [of "[c]" "[]" xs]
      by (auto simp: takeWhile_append)
  next
    case False
    then show ?thesis
      using Cons.IH [of "cur @ [x]"] by (auto simp: takeWhile_append)
  qed
qed

lemma getitem_last: "xs \<noteq> [] \<Longrightarrow> py_getitem xs (- 1) = Inr (last xs)"
  by (cases xs rule: rev_cases) (simp_all add: py_getitem_def Let_def nth_append)

lemma int_digits_error: "int_digits lim s = Inl e \<Longrightarrow> e = ValueError"
  unfolding int_digits_def Let_def by (simp split: if_splits)
lemma py_int_error: "py_int lim s = Inl e \<Longrightarrow> e = ValueError"
  by (auto simp: py_int_def split: prod.splits sum.splits dest: int_digits_error)

lemma sum_list_all_zero: "(\<forall>x\<in>set xs. f x = (0::int)) \<Longrightarrow> sum_list (map f xs) = 0"
  by (induction xs) simp_all

lemma count_step:
  "count_loop lim tot (line # rest) =
     count_loop lim (tot + (if CHR '':'' \<in> set line then parsed_count lim line else 0)) rest"
proof (cases "CHR '':'' \<in> set line")
  case False
  then have "\<not> py_in '':'' line" by (induction line) auto
  with False show ?thesis by simp
next
  case True
  then have colon: "py_in '':'' line" by (induction line) auto
  have field: "py_getitem (split_from '':'' [] line) (- 1) = Inr (last_field line)"
    using True by (simp add: getitem_last split_from_nonempty last_split_from last_field_def)
  show ?thesis
  proof (cases "py_int lim (last_field line)")
    case (Inl e)
    then have "e = ValueError" by (rule py_int_error)
    with Inl colon field True show ?thesis
      by (simp add: py_split_def parsed_count_def)
  next
    case (Inr n)
    with colon field True show ?thesis
      by (simp add: py_split_def parsed_count_def)
  qed
qed

lemma count_loop_sum:
  "count_loop lim tot ls =
     Inr (tot + sum_list (map (\<lambda>line. if CHR '':'' \<in> set line then parsed_count lim line else 0) ls))"
proof (induction ls arbitrary: tot)
  case Nil
  then show ?case by simp
next
  case (Cons line rest)
  show ?case
    unfolding count_step by (simp add: Cons.IH)
qed

lemma do_call_state:
  "do_call env st c =
     st\<lparr>invocations := invocations st @ [expected_command (default_args (self st)) c]\<rparr>"
  by (cases c) (simp_all add: search_snd lines_snd count_snd)

lemma do_calls_state:
  "do_calls env st cs =
     st\<lparr>invocations := invocations st @ map (expected_command (default_args (self st))) cs\<rparr>"
  by (induction cs arbitrary: st) (simp_all add: do_call_state)

section \<open>Properties of the translator\<close>

lemma convert_eq_spec: "convert_pattern p = spec_translate p"
  by (simp add: convert_pattern_def spec_translate_def escape_pair)

text \<open>
  Claim C1. For every input string the translator returns what the six steps give, in
  their order: a backslash before every parenthesis, then before every square bracket,
  then before every curly brace, then \<open><>\<close> replaced by \<open>.*\<close>, then \<open><name>\<close> by
  \<open>\w+\<close>, then \<open><num>\<close> by \<open>\d+\<close>. In particular \<open><>\<close> becomes \<open>.*\<close> and
  \<open><num>\<close> becomes \<open>\d+\<close>.
\<close>

theorem convert_pattern_six_steps:
  "convert_pattern p = spec_translate p
   \<and> convert_pattern ''<>'' = ''.*''
   \<and> convert_pattern ''<num>'' = BSL # ''d+''"
proof (intro conjI)
  show "convert_pattern p = spec_translate p"
    by (rule convert_eq_spec)
  show "convert_pattern ''<>'' = ''.*''"
    by (simp add: convert_pattern_def py_replace_def)
  show "convert_pattern ''<num>'' = BSL # ''d+''"
    by (simp add: convert_pattern_def py_replace_def)
qed

text \<open>
  Claim C3 says that \<open>def <name>():\<close> becomes \<open>def \w+():\<close>, the parentheses as they
  were. The translator does not return that string.
\<close>

theorem convert_pattern_def_name_counterexample:
  "convert_pattern ''def <name>():'' \<noteq> ''def '' @ BSL # ''w+():''"
  by (simp add: convert_pattern_def py_replace_def)

text \<open>
  Claim C3, amended. The pattern \<open>def <name>():\<close> becomes \<open>def \w+\(\):\<close>: the
  placeholder is replaced by \<open>\w+\<close> and each parenthesis has a backslash before it.
\<close>

theorem convert_pattern_def_name:
  "convert_pattern ''def <name>():'' = ''def '' @ BSL # ''w+'' @ BSL # ''('' @ BSL # '')'' @ '':''"
  by (simp add: convert_pattern_def py_replace_def)

text \<open>
  Claim C4 says that in the output every bracket that came from the input has a backslash
  before it that escapes it. For a bracket that the input had already escaped this fails:
  the user's backslash and the added one form a pair, an escaped backslash, and the
  bracket after them is not escaped.
\<close>

theorem convert_pattern_escaped_bracket_counterexample:
  "convert_pattern [BSL, CHR ''(''] = [BSL, BSL, CHR ''('']
   \<and> convert_pattern [BSL, CHR ''(''] ! 2 \<in> set brackets
   \<and> \<not> escaped_at (convert_pattern [BSL, CHR ''('']) 2"
  by (simp add: convert_pattern_def py_replace_def brackets_def escaped_at_def backslash_run_def)

text \<open>
  Claim C4, amended. For every input pattern, the parentheses, square brackets and curly
  braces of the output are those of the input, in the same order (none comes from a
  placeholder), and each has a backslash immediately before it, put there by the
  translator: whatever stands before and after such a character in the input, the output
  is the translation of what stands before, the backslash, the character, and the
  translation of what stands after. That backslash escapes the character unless the
  character was already escaped in the input: a bracket with an even number of
  backslashes before it in the input (possibly none) is escaped in the output, and one
  with an odd number is not. So if no bracket is escaped in the input, every bracket of
  the output is escaped.
\<close>

theorem convert_pattern_brackets_escaped:
  "(\<forall>i<length (convert_pattern p). convert_pattern p ! i \<in> set brackets \<longrightarrow>
       0 < i \<and> convert_pattern p ! (i - 1) = BSL) \<and>
   filter (\<lambda>c. c \<in> set brackets) (convert_pattern p) = filter (\<lambda>c. c \<in> set brackets) p \<and>
   (\<forall>pre c post. p = pre @ c # post \<and> c \<in> set brackets \<longrightarrow>
       convert_pattern p = convert_pattern pre @ BSL # c # convert_pattern post \<and>
       (escaped_at (convert_pattern p) (Suc (length (convert_pattern pre))) \<longleftrightarrow>
          \<not> escaped_at p (length pre))) \<and>
   ((\<forall>j<length p. p ! j \<in> set brackets \<longrightarrow> \<not> escaped_at p j) \<longrightarrow>
    (\<forall>i<length (convert_pattern p). convert_pattern p ! i \<in> set brackets \<longrightarrow>
       escaped_at (convert_pattern p) i))"
proof (intro conjI allI impI)
  fix i assume i: "i < length (convert_pattern p)" "convert_pattern p ! i \<in> set brackets"
  have "bracket_scan (\<lambda>_. True) False (convert_pattern p)"
    by (rule bracket_scan_convert) (rule guarded_escape)
  from guarded_nth [OF this i] show "0 < i" and "convert_pattern p ! (i - 1) = BSL"
    by (auto split: if_splits)
next
  show "filter (\<lambda>c. c \<in> set brackets) (convert_pattern p) = filter (\<lambda>c. c \<in> set brackets) p"
    by (rule filter_convert_pattern)
next
  fix pre c post
  assume split: "p = pre @ c # post \<and> c \<in> set brackets"
  then show out: "convert_pattern p = convert_pattern pre @ BSL # c # convert_pattern post"
    by (simp add: convert_pattern_bracket)
  have "escaped_at (convert_pattern p) (Suc (length (convert_pattern pre))) \<longleftrightarrow>
      odd (backslash_run (convert_pattern pre @ [BSL]))"
    by (simp add: escaped_at_def out)
  also have "\<dots> \<longleftrightarrow> \<not> odd (backslash_run pre)"
    by (simp add: backslash_run_snoc backslash_run_convert)
  also have "\<dots> \<longleftrightarrow> \<not> escaped_at p (length pre)"
    using split by (simp add: escaped_at_def)
  finally show "escaped_at (convert_pattern p) (Suc (length (convert_pattern pre))) \<longleftrightarrow>
      \<not> escaped_at p (length pre)" .
next
  fix i
  assume unesc: "\<forall>j<length p. p ! j \<in> set brackets \<longrightarrow> \<not> escaped_at p j"
    and i: "i < length (convert_pattern p)" "convert_pattern p ! i \<in> set brackets"
  have "unescaped_scan (odd (backslash_run [])) p"
    by (rule unescaped_scan_nth) (use unesc in \<open>simp add: escaped_at_def\<close>)
  then have "bracket_scan Not (odd (backslash_run [])) (convert_pattern p)"
    by (intro bracket_scan_convert escaped_escape)
  from escaped_nth [OF this i] show "escaped_at (convert_pattern p) i"
    by (simp add: escaped_at_def)
qed

theorem convert_pattern_brackets_escaped_witness:
  "convert_pattern ''f(x)'' ! 2 = CHR ''(''
   \<and> convert_pattern ''f(x)'' ! (2 - 1) = BSL
   \<and> escaped_at (convert_pattern ''f(x)'') 2
   \<and> convert_pattern [BSL, CHR ''('', CHR ''(''] = [BSL, BSL, CHR ''('', BSL, CHR ''('']
   \<and> \<not> escaped_at [BSL, CHR ''('', CHR ''(''] 2
   \<and> escaped_at (convert_pattern [BSL, CHR ''('', CHR ''('']) 4
   \<and> escaped_at [BSL, CHR ''('', CHR ''(''] 1
   \<and> \<not> escaped_at (convert_pattern [BSL, CHR ''('', CHR ''('']) 2"
proof -
  let ?p = "''f(x)''"
  have out: "convert_pattern ?p = ''f'' @ BSL # ''(x'' @ BSL # '')''"
    by (simp add: convert_pattern_def py_replace_def)
  have at2: "2 < length (convert_pattern ?p)" "convert_pattern ?p ! 2 \<in> set brackets"
    by (simp_all add: out brackets_def)
  have unesc: "\<forall>j<length ?p. ?p ! j \<in> set brackets \<longrightarrow> \<not> escaped_at ?p j"
  proof (intro allI impI)
    fix j :: nat
    assume "j < length ?p"
    then consider "j = 0" | "j = 1" | "j = 2" | "j = 3"
      by force
    then show "\<not> escaped_at ?p j"
      by cases (simp_all add: escaped_at_def backslash_run_def)
  qed
  from convert_pattern_brackets_escaped [of ?p] unesc at2
  have "convert_pattern ?p ! (2 - 1) = BSL" and "escaped_at (convert_pattern ?p) 2"
    by blast+
  moreover have "convert_pattern ?p ! 2 = CHR ''(''"
    by (simp add: out)
  moreover
  let ?q = "[BSL, CHR ''('', CHR ''('']"
  have paren: "CHR ''('' \<in> set brackets"
    by (simp add: brackets_def)
  have pre1: "convert_pattern [BSL] = [BSL]" and pre2: "convert_pattern [BSL, CHR ''(''] = [BSL, BSL, CHR ''('']"
    and post1: "convert_pattern [CHR ''(''] = [BSL, CHR ''('']"
    by (simp_all add: convert_pattern_def py_replace_def)
  have second: "?q = [BSL, CHR ''(''] @ CHR ''('' # [] \<and> CHR ''('' \<in> set brackets"
    and first: "?q = [BSL] @ CHR ''('' # [CHR ''(''] \<and> CHR ''('' \<in> set brackets"
    using paren by simp_all
  have in2: "\<not> escaped_at ?q 2" and in1: "escaped_at ?q 1"
    by (simp_all add: escaped_at_def backslash_run_def)
  from convert_pattern_brackets_escaped [of ?q] second
  have "convert_pattern ?q = convert_pattern [BSL, CHR ''(''] @ BSL # CHR ''('' # convert_pattern []"
    and "escaped_at (convert_pattern ?q) (Suc (length (convert_pattern [BSL, CHR ''('']))) \<longleftrightarrow>
           \<not> escaped_at ?q (length [BSL, CHR ''(''])"
    by blast+
  then have "convert_pattern ?q = [BSL, BSL, CHR ''('', BSL, CHR ''('']"
    and "escaped_at (convert_pattern ?q) 4"
    using in2 by (simp_all add: pre2 convert_pattern_Nil eval_nat_numeral)
  moreover
  from convert_pattern_brackets_escaped [of ?q] first
  have "escaped_at (convert_pattern ?q) (Suc (length (convert_pattern [BSL]))) \<longleftrightarrow>
           \<not> escaped_at ?q (length [BSL])"
    by blast
  then have "\<not> escaped_at (convert_pattern ?q) 2"
    using in1 by (simp add: pre1 eval_nat_numeral)
  ultimately show ?thesis
    using in1 in2 by simp
qed

text \<open>
  Claim C8. The translator is not idempotent on strings with a character of the escaped
  set: there is such a string, for example \<open>(\<close>, whose translation is changed by a
  second translation.
\<close>

theorem convert_pattern_not_idempotent:
  "CHR ''('' \<in> set brackets
   \<and> convert_pattern (convert_pattern ''('') \<noteq> convert_pattern ''(''
   \<and> (\<exists>s. set s \<inter> set brackets \<noteq> {} \<and> convert_pattern (convert_pattern s) \<noteq> convert_pattern s)"
proof -
  have twice: "convert_pattern (convert_pattern ''('') \<noteq> convert_pattern ''(''"
    by (simp add: convert_pattern_def py_replace_def)
  have "set ''('' \<inter> set brackets \<noteq> {}"
    by (simp add: brackets_def)
  with twice have "\<exists>s. set s \<inter> set brackets \<noteq> {}
      \<and> convert_pattern (convert_pattern s) \<noteq> convert_pattern s"
    by blast
  with twice show ?thesis by (simp add: brackets_def)
qed

text \<open>
  Claim C10. A string with none of the six bracket characters and with no occurrence of
  \<open><>\<close>, \<open><name>\<close> or \<open><num>\<close> is returned unchanged, so a token in angle brackets
  that is not a placeholder, such as \<open><foo>\<close>, passes through as it is.
\<close>

theorem convert_pattern_unchanged:
  assumes "set p \<inter> set brackets = {}"
    and "\<not> py_in ''<>'' p" and "\<not> py_in ''<name>'' p" and "\<not> py_in ''<num>'' p"
  shows "convert_pattern p = p"
proof -
  have "\<not> py_in [c] p" if "c \<in> set brackets" for c
    using that assms(1) by (auto simp: py_in_single)
  then show ?thesis using assms(2-4)
    by (simp add: convert_pattern_def py_replace_absent brackets_def)
qed

theorem convert_pattern_unchanged_witness:
  "set ''<foo>'' \<inter> set brackets = {}
   \<and> \<not> py_in ''<>'' ''<foo>'' \<and> \<not> py_in ''<name>'' ''<foo>'' \<and> \<not> py_in ''<num>'' ''<foo>''
   \<and> convert_pattern ''<foo>'' = ''<foo>''"
  using convert_pattern_unchanged [of "''<foo>''"] by (simp add: brackets_def)

section \<open>Properties of the searcher\<close>

text \<open>
  Claim C6. For every pattern and all extra arguments, the command that \<open>search\<close>
  hands to \<open>subprocess.run\<close> is the tool's name, the translated pattern, the default
  options in their order and the extra arguments in theirs, and what \<open>search\<close> returns
  is the outcome of that very command; \<open>lines\<close> runs the same command, and \<open>count\<close>
  puts the flag \<open>-c\<close> before the extra arguments. Each call runs that one command and
  no other.
\<close>

theorem command_vector:
  "fst (search env st pattern args) =
     (case subprocess_run env (invocations st)
             ([''rg'', convert_pattern pattern] @ default_args (self st) @ args) of
        Inr result \<Rightarrow> Inr (stdout result)
      | Inl e \<Rightarrow> if e = FileNotFoundError then Inl ImportError else Inl e)
   \<and> fst (lines env st pattern args) =
     (case subprocess_run env (invocations st)
             ([''rg'', convert_pattern pattern] @ default_args (self st) @ args) of
        Inr result \<Rightarrow>
          Inr (filter (\<lambda>line. py_strip line \<noteq> []) (py_splitlines (stdout result)))
      | Inl e \<Rightarrow> if e = FileNotFoundError then Inl ImportError else Inl e)
   \<and> fst (count env st pattern args) =
     (case subprocess_run env (invocations st)
             ([''rg'', convert_pattern pattern] @ default_args (self st) @ [''-c''] @ args) of
        Inr result \<Rightarrow> count_loop (int_max_str_digits env) 0 (py_splitlines (stdout result))
      | Inl e \<Rightarrow> if e = FileNotFoundError then Inl ImportError else Inl e)
   \<and> invocations (snd (search env st pattern args)) =
     invocations st @ [[''rg'', convert_pattern pattern] @ default_args (self st) @ args]
   \<and> invocations (snd (lines env st pattern args)) =
     invocations st @ [[''rg'', convert_pattern pattern] @ default_args (self st) @ args]
   \<and> invocations (snd (count env st pattern args)) =
     invocations st @ [[''rg'', convert_pattern pattern] @ default_args (self st) @ [''-c''] @ args]"
proof (intro conjI)
  show "fst (search env st pattern args) =
     (case subprocess_run env (invocations st)
             ([''rg'', convert_pattern pattern] @ default_args (self st) @ args) of
        Inr result \<Rightarrow> Inr (stdout result)
      | Inl e \<Rightarrow> if e = FileNotFoundError then Inl ImportError else Inl e)"
    by (rule search_fst)
  show "fst (lines env st pattern args) =
     (case subprocess_run env (invocations st)
             ([''rg'', convert_pattern pattern] @ default_args (self st) @ args) of
        Inr result \<Rightarrow>
          Inr (filter (\<lambda>line. py_strip line \<noteq> []) (py_splitlines (stdout result)))
      | Inl e \<Rightarrow> if e = FileNotFoundError then Inl ImportError else Inl e)"
    by (simp add: lines_fst search_fst split: sum.splits)
  show "fst (count env st pattern args) =
     (case subprocess_run env (invocations st)
             ([''rg'', convert_pattern pattern] @ default_args (self st) @ [''-c''] @ args) of
        Inr result \<Rightarrow> count_loop (int_max_str_digits env) 0 (py_splitlines (stdout result))
      | Inl e \<Rightarrow> if e = FileNotFoundError then Inl ImportError else Inl e)"
    by (simp add: count_fst search_fst split: sum.splits)
qed (simp_all add: search_snd lines_snd count_snd)

theorem command_vector_witness:
  "fst (search echo_env (fresh [''--type'', ''py'']) ''(<num>)'' [''src'', ''-i'']) =
     Inr (''rg'' @ [LF] @ (BSL # ''('' @ BSL # ''d+'' @ BSL # '')'') @ [LF] @ ''--type'' @ [LF]
          @ ''py'' @ [LF] @ ''src'' @ [LF] @ ''-i'' @ [LF])
   \<and> fst (lines echo_env (fresh [''--type'', ''py'']) ''x'' [''src'']) =
     Inr [''rg'', ''x'', ''--type'', ''py'', ''src'']
   \<and> fst (lines echo_env (fresh [''--type'', ''py'']) ''x'' [''-c'', ''src'']) =
     Inr [''rg'', ''x'', ''--type'', ''py'', ''-c'', ''src'']
   \<and> fst (count echo_env (fresh [''--type'', ''py'']) ''x'' [''src'']) =
     count_loop 4300 0 [''rg'', ''x'', ''--type'', ''py'', ''-c'', ''src'']"
proof -
  let ?st = "fresh [''--type'', ''py'']"
  have "fst (search echo_env ?st ''(<num>)'' [''src'', ''-i'']) =
     Inr (''rg'' @ [LF] @ (BSL # ''('' @ BSL # ''d+'' @ BSL # '')'') @ [LF] @ ''--type'' @ [LF]
          @ ''py'' @ [LF] @ ''src'' @ [LF] @ ''-i'' @ [LF])"
    using command_vector [of echo_env ?st "''(<num>)''" "[''src'', ''-i'']"]
    by (simp add: echo_env_def fresh_def convert_pattern_def py_replace_def)
  moreover have "fst (lines echo_env ?st ''x'' [''src'']) = Inr [''rg'', ''x'', ''--type'', ''py'', ''src'']"
    using command_vector [of echo_env ?st "''x''" "[''src'']"]
    by (simp add: echo_env_def fresh_def convert_pattern_def py_replace_def
        py_splitlines_def is_linebreak_def py_strip_def isspace_def)
  moreover have "fst (lines echo_env ?st ''x'' [''-c'', ''src'']) =
      Inr [''rg'', ''x'', ''--type'', ''py'', ''-c'', ''src'']"
    using command_vector [of echo_env ?st "''x''" "[''-c'', ''src'']"]
    by (simp add: echo_env_def fresh_def convert_pattern_def py_replace_def
        py_splitlines_def is_linebreak_def py_strip_def isspace_def)
  moreover have "fst (count echo_env ?st ''x'' [''src'']) =
      count_loop 4300 0 [''rg'', ''x'', ''--type'', ''py'', ''-c'', ''src'']"
    using command_vector [of echo_env ?st "''x''" "[''src'']"]
    by (simp add: echo_env_def fresh_def convert_pattern_def py_replace_def
        py_splitlines_def is_linebreak_def)
  ultimately show ?thesis by simp
qed

text \<open>
  Claim C5. \<open>lines\<close> splits the output of the search at the line boundaries, drops the
  lines that are empty or have white space only and keeps the others in their order, so
  no line of the result is blank or has a line boundary in it; an exception of the search
  is passed on. On the output \<open>a\n\n  \nb\n\<close> the result is the two lines \<open>a\<close>
  and \<open>b\<close>.
\<close>

theorem lines_drops_blank_lines:
  "(fst (search env st pattern args) = Inr output \<longrightarrow>
      fst (lines env st pattern args) =
        Inr (filter (\<lambda>line. \<not> blank_line line) (py_splitlines output)))
   \<and> (fst (lines env st pattern args) = Inr ls \<longrightarrow>
      (\<forall>line\<in>set ls. \<not> blank_line line \<and> (\<forall>c\<in>set line. \<not> is_linebreak c)))
   \<and> (fst (search env st pattern args) = Inl e \<longrightarrow> fst (lines env st pattern args) = Inl e)
   \<and> (fst (search env st pattern args) = Inr (''a'' @ [LF, LF] @ ''  '' @ [LF] @ ''b'' @ [LF]) \<longrightarrow>
      fst (lines env st pattern args) = Inr [''a'', ''b''])"
proof (intro conjI impI)
  show "\<forall>line\<in>set ls. \<not> blank_line line \<and> (\<forall>c\<in>set line. \<not> is_linebreak c)"
    if "fst (lines env st pattern args) = Inr ls"
  proof (cases "fst (search env st pattern args)")
    case (Inl e')
    with that show ?thesis by (simp add: lines_fst)
  next
    case (Inr out)
    with that have "ls = filter (\<lambda>line. \<not> blank_line line) (py_splitlines out)"
      by (simp add: lines_fst strip_blank)
    then show ?thesis
      using py_splitlines_no_break [of _ out] by auto
  qed
  show "fst (lines env st pattern args) =
      Inr (filter (\<lambda>line. \<not> blank_line line) (py_splitlines output))"
    if "fst (search env st pattern args) = Inr output"
    using that by (simp add: lines_fst strip_blank)
  show "fst (lines env st pattern args) = Inl e"
    if "fst (search env st pattern args) = Inl e"
    using that by (simp add: lines_fst)
  show "fst (lines env st pattern args) = Inr [''a'', ''b'']"
    if "fst (search env st pattern args) = Inr (''a'' @ [LF, LF] @ ''  '' @ [LF] @ ''b'' @ [LF])"
    using that
    by (simp add: lines_fst py_splitlines_def is_linebreak_def py_strip_def isspace_def)
qed

theorem lines_drops_blank_lines_witness:
  "fst (search (fixed_output_env 0 (''a'' @ [LF, LF] @ ''  '' @ [LF] @ ''b'' @ [LF]))
         (fresh []) ''<name>'' [''src'']) = Inr (''a'' @ [LF, LF] @ ''  '' @ [LF] @ ''b'' @ [LF])
   \<and> fst (lines (fixed_output_env 0 (''a'' @ [LF, LF] @ ''  '' @ [LF] @ ''b'' @ [LF]))
         (fresh []) ''<name>'' [''src'']) = Inr [''a'', ''b'']
   \<and> \<not> blank_line ''b''
   \<and> fst (search no_rg_env (fresh []) ''<name>'' [''src'']) = Inl ImportError
   \<and> fst (lines no_rg_env (fresh []) ''<name>'' [''src'']) = Inl ImportError"
proof -
  let ?out = "''a'' @ [LF, LF] @ ''  '' @ [LF] @ ''b'' @ [LF]"
  let ?env = "fixed_output_env 0 ?out"
  have ok: "fst (search ?env (fresh []) ''<name>'' [''src'']) = Inr ?out"
    by (simp add: search_fst fixed_output_env_def)
  have bad: "fst (search no_rg_env (fresh []) ''<name>'' [''src'']) = Inl ImportError"
    by (simp add: search_fst no_rg_env_def)
  from ok lines_drops_blank_lines [of ?env "fresh []" "''<name>''" "[''src'']" ?out]
  have res: "fst (lines ?env (fresh []) ''<name>'' [''src'']) = Inr [''a'', ''b'']"
    by blast
  from res lines_drops_blank_lines [of ?env "fresh []" "''<name>''" "[''src'']" _ "[''a'', ''b'']"]
  have "\<forall>line\<in>set [''a'', ''b'']. \<not> blank_line line \<and> (\<forall>c\<in>set line. \<not> is_linebreak c)"
    by blast
  then have "\<not> blank_line ''b''"
    by simp
  moreover from bad lines_drops_blank_lines
    [of no_rg_env "fresh []" "''<name>''" "[''src'']" _ _ ImportError]
  have "fst (lines no_rg_env (fresh []) ''<name>'' [''src'']) = Inl ImportError"
    by blast
  ultimately show ?thesis using ok bad res by simp
qed

text \<open>
  What \<open>count\<close> computes. It splits the output of the search into lines; of a line
  with a colon in it, what follows the last colon is read as an integer and added to the
  total if it is one, and the line is passed over without an error if it is not. A line
  without a colon is passed over unread. So the output \<open>file1.py:3\nfile2.py:5\n\<close>
  gives 8, and a line such as \<open>file1.py:abc\<close> does not disturb the sum of the others.
\<close>

lemma count_sums_lines_with_colon:
  "(fst (search env st pattern (''-c'' # args)) = Inr output \<longrightarrow>
      fst (count env st pattern args) =
        Inr (sum_list (map (\<lambda>line. if CHR '':'' \<in> set line
                                   then parsed_count (int_max_str_digits env) line else 0)
                           (py_splitlines output))))
   \<and> (fst (search env st pattern (''-c'' # args)) = Inr output
        \<and> (\<forall>line\<in>set (py_splitlines output). \<forall>n.
              py_int (int_max_str_digits env) (last_field line) \<noteq> Inr n) \<longrightarrow>
      fst (count env st pattern args) = Inr 0)
   \<and> (fst (search env st pattern (''-c'' # args)) = Inr (''file1.py:3'' @ [LF] @ ''file2.py:5'' @ [LF]) \<longrightarrow>
      fst (count env st pattern args) = Inr 8)
   \<and> (fst (search env st pattern (''-c'' # args)) =
          Inr (''file1.py:abc'' @ [LF] @ ''file2.py:5'' @ [LF] @ ''file3.py:2'' @ [LF]) \<longrightarrow>
      fst (count env st pattern args) = Inr 7)"
proof (intro conjI impI)
  let ?lim = "int_max_str_digits env"
  let ?add = "\<lambda>line. if CHR '':'' \<in> set line then parsed_count ?lim line else 0"
  have general: "fst (count env st pattern args) = Inr (sum_list (map ?add (py_splitlines out)))"
    if "fst (search env st pattern (''-c'' # args)) = Inr out" for out
    using that by (simp add: count_fst count_loop_sum)
  show "fst (count env st pattern args) = Inr (sum_list (map ?add (py_splitlines output)))"
    if "fst (search env st pattern (''-c'' # args)) = Inr output"
    using that by (rule general)
  show "fst (count env st pattern args) = Inr 0"
    if "fst (search env st pattern (''-c'' # args)) = Inr output
        \<and> (\<forall>line\<in>set (py_splitlines output). \<forall>n. py_int ?lim (last_field line) \<noteq> Inr n)"
  proof -
    have "?add line = 0" if "line \<in> set (py_splitlines output)" for line
    proof (cases "py_int ?lim (last_field line)")
      case (Inl e)
      then show ?thesis by (simp add: parsed_count_def)
    next
      case (Inr n)
      with \<open>line \<in> set (py_splitlines output)\<close>
        \<open>fst (search env st pattern (''-c'' # args)) = Inr output
          \<and> (\<forall>line\<in>set (py_splitlines output). \<forall>n. py_int ?lim (last_field line) \<noteq> Inr n)\<close>
      show ?thesis by blast
    qed
    then have "sum_list (map ?add (py_splitlines output)) = 0"
      by (intro sum_list_all_zero) blast
    with general [of "output"] that show ?thesis by simp
  qed
  show "fst (count env st pattern args) = Inr 8"
    if "fst (search env st pattern (''-c'' # args)) = Inr (''file1.py:3'' @ [LF] @ ''file2.py:5'' @ [LF])"
    using general [OF that]
    by (simp add: py_splitlines_def is_linebreak_def parsed_count_def last_field_def
        py_int_def skip_sign_def int_digits_def int_space_def is_digit_def digit_val_def)
  show "fst (count env st pattern args) = Inr 7"
    if "fst (search env st pattern (''-c'' # args)) =
          Inr (''file1.py:abc'' @ [LF] @ ''file2.py:5'' @ [LF] @ ''file3.py:2'' @ [LF])"
    using general [OF that]
    by (simp add: py_splitlines_def is_linebreak_def parsed_count_def last_field_def
        py_int_def skip_sign_def int_digits_def int_space_def is_digit_def digit_val_def)
qed

lemma count_sums_lines_with_colon_examples:
  "fst (count (fixed_output_env 0 (''file1.py:3'' @ [LF] @ ''file2.py:5'' @ [LF]))
         (fresh [''--type'', ''py'']) ''def <name>'' [''src'']) = Inr 8
   \<and> fst (count (fixed_output_env 0
                  (''file1.py:abc'' @ [LF] @ ''file2.py:5'' @ [LF] @ ''file3.py:2'' @ [LF]))
         (fresh [''--type'', ''py'']) ''def <name>'' [''src'']) = Inr 7
   \<and> fst (count (fixed_output_env 1 ''file1.py:abc'')
         (fresh [''--type'', ''py'']) ''def <name>'' [''src'']) = Inr 0"
proof -
  let ?st = "fresh [''--type'', ''py'']"
  let ?out1 = "''file1.py:3'' @ [LF] @ ''file2.py:5'' @ [LF]"
  let ?out2 = "''file1.py:abc'' @ [LF] @ ''file2.py:5'' @ [LF] @ ''file3.py:2'' @ [LF]"
  let ?out3 = "''file1.py:abc''"
  have s: "fst (search (fixed_output_env status out) ?st ''def <name>'' (''-c'' # [''src''])) = Inr out"
    for status out
    by (simp add: search_fst fixed_output_env_def)
  have none: "\<forall>line\<in>set (py_splitlines ?out3). \<forall>n.
      py_int (int_max_str_digits (fixed_output_env 1 ?out3)) (last_field line) \<noteq> Inr n"
    by (simp add: py_splitlines_def is_linebreak_def last_field_def
        py_int_def skip_sign_def int_digits_def int_space_def is_digit_def)
  from s [of 0 ?out1] count_sums_lines_with_colon
    [of "fixed_output_env 0 ?out1" ?st "''def <name>''" "[''src'']" ?out1]
  have "fst (count (fixed_output_env 0 ?out1) ?st ''def <name>'' [''src'']) = Inr 8"
    by blast
  moreover from s [of 0 ?out2] count_sums_lines_with_colon
    [of "fixed_output_env 0 ?out2" ?st "''def <name>''" "[''src'']" ?out2]
  have "fst (count (fixed_output_env 0 ?out2) ?st ''def <name>'' [''src'']) = Inr 7"
    by blast
  moreover from s [of 1 ?out3] none count_sums_lines_with_colon
    [of "fixed_output_env 1 ?out3" ?st "''def <name>''" "[''src'']" ?out3]
  have "fst (count (fixed_output_env 1 ?out3) ?st ''def <name>'' [''src'']) = Inr 0"
    by blast
  ultimately show ?thesis by simp
qed

text \<open>
  Claim C2. \<open>count\<close> takes the last field of every line of the output, with the colon
  as the delimiter, adds it to the total if it is an integer and skips the line if it is
  not; by its documentation the result is the number of matching lines. The code breaks
  this on a line without a colon. Searching a single file, the tool prints the bare
  count, and on the output \<open>5\n\<close> the result of \<open>count\<close> is 0, where the last field
  of the only line is the integer 5.
\<close>

theorem count_skips_bare_count_line:
  "fst (search (fixed_output_env 0 (''5'' @ [LF])) (fresh []) ''x'' [''-c'', ''notes.txt'']) =
     Inr (''5'' @ [LF])
   \<and> fst (count (fixed_output_env 0 (''5'' @ [LF])) (fresh []) ''x'' [''notes.txt'']) = Inr 0
   \<and> spec_count (int_max_str_digits (fixed_output_env 0 (''5'' @ [LF]))) (''5'' @ [LF]) = 5"
  by (simp add: count_fst search_fst fixed_output_env_def py_splitlines_def is_linebreak_def
      spec_count_def parsed_count_def last_field_def py_int_def skip_sign_def int_digits_def
      int_space_def is_digit_def digit_val_def)

text \<open>
  Claim C7 says that a missing tool is the only condition that comes out as an exception.
  An exception of \<open>subprocess.run\<close> other than \<open>FileNotFoundError\<close> comes out too: with
  the tool installed and the instance made, a pattern with a NUL character in it makes
  \<open>search\<close> raise a \<open>ValueError\<close>.
\<close>

theorem search_other_exception_counterexample:
  "init nul_rejecting_env None = Inr \<lparr>default_args = []\<rparr>
   \<and> fst (search nul_rejecting_env (fresh []) [CHR 0x00] []) = Inl ValueError"
  by (simp add: init_def check_ripgrep_def nul_rejecting_env_def search_fst fresh_def
      convert_pattern_def py_replace_def)

text \<open>
  Claim C7, amended. If the tool is not found on the path, making the searcher raises the
  dependency-missing error, so no search is attempted. Whenever \<open>subprocess.run\<close>
  returns a completed process, whatever its exit status and error output (no matches, an
  error reported by the tool), \<open>search\<close>, \<open>lines\<close> and \<open>count\<close> return a result
  and raise nothing, also when count lines are malformed. If \<open>subprocess.run\<close> raises
  \<open>FileNotFoundError\<close>, the three methods raise the dependency-missing error; any other
  exception of \<open>subprocess.run\<close> (a \<open>ValueError\<close> for a NUL character in an argument,
  a \<open>UnicodeDecodeError\<close> for output that cannot be decoded) is passed on as it is.
\<close>

theorem raised_errors:
  "(which env ''rg'' = None \<longrightarrow> init env options = Inl ImportError)
   \<and> (subprocess_run env (invocations st)
         ([''rg'', convert_pattern pattern] @ default_args (self st) @ args) = Inr result \<longrightarrow>
       fst (search env st pattern args) = Inr (stdout result)
       \<and> (\<exists>ls. fst (lines env st pattern args) = Inr ls))
   \<and> (subprocess_run env (invocations st)
         ([''rg'', convert_pattern pattern] @ default_args (self st) @ [''-c''] @ args) = Inr result \<longrightarrow>
       (\<exists>n. fst (count env st pattern args) = Inr n))
   \<and> (subprocess_run env (invocations st)
         ([''rg'', convert_pattern pattern] @ default_args (self st) @ args) = Inl FileNotFoundError \<longrightarrow>
       fst (search env st pattern args) = Inl ImportError)
   \<and> (subprocess_run env (invocations st)
         ([''rg'', convert_pattern pattern] @ default_args (self st) @ args) = Inl e
        \<and> e \<noteq> FileNotFoundError \<longrightarrow>
       fst (search env st pattern args) = Inl e)
   \<and> (subprocess_run env (invocations st)
         ([''rg'', convert_pattern pattern] @ default_args (self st) @ args) = Inl FileNotFoundError \<longrightarrow>
       fst (lines env st pattern args) = Inl ImportError)
   \<and> (subprocess_run env (invocations st)
         ([''rg'', convert_pattern pattern] @ default_args (self st) @ args) = Inl e
        \<and> e \<noteq> FileNotFoundError \<longrightarrow>
       fst (lines env st pattern args) = Inl e)
   \<and> (subprocess_run env (invocations st)
         ([''rg'', convert_pattern pattern] @ default_args (self st) @ [''-c''] @ args) =
           Inl FileNotFoundError \<longrightarrow>
       fst (count env st pattern args) = Inl ImportError)
   \<and> (subprocess_run env (invocations st)
         ([''rg'', convert_pattern pattern] @ default_args (self st) @ [''-c''] @ args) = Inl e
        \<and> e \<noteq> FileNotFoundError \<longrightarrow>
       fst (count env st pattern args) = Inl e)"
proof (intro conjI impI)
  show "init env options = Inl ImportError" if "which env ''rg'' = None"
    using that by (simp add: init_def check_ripgrep_def)
  show "fst (search env st pattern args) = Inr (stdout result)"
    if "subprocess_run env (invocations st)
          ([''rg'', convert_pattern pattern] @ default_args (self st) @ args) = Inr result"
    using that by (simp add: search_fst)
  show "\<exists>ls. fst (lines env st pattern args) = Inr ls"
    if "subprocess_run env (invocations st)
          ([''rg'', convert_pattern pattern] @ default_args (self st) @ args) = Inr result"
    using that by (simp add: lines_fst search_fst)
  show "\<exists>n. fst (count env st pattern args) = Inr n"
    if "subprocess_run env (invocations st)
          ([''rg'', convert_pattern pattern] @ default_args (self st) @ [''-c''] @ args) = Inr result"
    using that by (simp add: count_fst search_fst count_loop_sum)
  show "fst (search env st pattern args) = Inl ImportError"
    if "subprocess_run env (invocations st)
          ([''rg'', convert_pattern pattern] @ default_args (self st) @ args) = Inl FileNotFoundError"
    using that by (simp add: search_fst)
  show "fst (search env st pattern args) = Inl e"
    if "subprocess_run env (invocations st)
          ([''rg'', convert_pattern pattern] @ default_args (self st) @ args) = Inl e
        \<and> e \<noteq> FileNotFoundError"
    using that by (simp add: search_fst)
  show "fst (lines env st pattern args) = Inl ImportError"
    if "subprocess_run env (invocations st)
          ([''rg'', convert_pattern pattern] @ default_args (self st) @ args) = Inl FileNotFoundError"
    using that by (simp add: lines_fst search_fst)
  show "fst (lines env st pattern args) = Inl e"
    if "subprocess_run env (invocations st)
          ([''rg'', convert_pattern pattern] @ default_args (self st) @ args) = Inl e
        \<and> e \<noteq> FileNotFoundError"
    using that by (simp add: lines_fst search_fst)
  show "fst (count env st pattern args) = Inl ImportError"
    if "subprocess_run env (invocations st)
          ([''rg'', convert_pattern pattern] @ default_args (self st) @ [''-c''] @ args) =
            Inl FileNotFoundError"
    using that by (simp add: count_fst search_fst)
  show "fst (count env st pattern args) = Inl e"
    if "subprocess_run env (invocations st)
          ([''rg'', convert_pattern pattern] @ default_args (self st) @ [''-c''] @ args) = Inl e
        \<and> e \<noteq> FileNotFoundError"
    using that by (simp add: count_fst search_fst)
qed

theorem raised_errors_witness:
  "init no_rg_env (Some [''--type'', ''py'']) = Inl ImportError
   \<and> fst (search (fixed_output_env 2 []) (fresh []) ''x'' []) = Inr []
   \<and> (\<exists>ls. fst (lines (fixed_output_env 2 []) (fresh []) ''x'' []) = Inr ls)
   \<and> (\<exists>n. fst (count (fixed_output_env 2 []) (fresh []) ''x'' []) = Inr n)
   \<and> fst (search no_rg_env (fresh []) ''x'' []) = Inl ImportError
   \<and> fst (lines no_rg_env (fresh []) ''x'' []) = Inl ImportError
   \<and> fst (count no_rg_env (fresh []) ''x'' []) = Inl ImportError
   \<and> fst (search nul_rejecting_env (fresh []) [CHR 0x00] []) = Inl ValueError
   \<and> fst (search undecodable_output_env (fresh []) ''x'' []) = Inl UnicodeDecodeError
   \<and> fst (lines undecodable_output_env (fresh []) ''x'' []) = Inl UnicodeDecodeError
   \<and> fst (count undecodable_output_env (fresh []) ''x'' []) = Inl UnicodeDecodeError"
proof -
  have 1: "which no_rg_env ''rg'' = None"
    by (simp add: no_rg_env_def)
  have 2: "subprocess_run (fixed_output_env 2 []) (invocations (fresh [])) cmd =
      Inr \<lparr>returncode = 2, stdout = [], stderr = []\<rparr>" for cmd
    by (simp add: fixed_output_env_def)
  have 3: "subprocess_run no_rg_env (invocations (fresh [])) cmd = Inl FileNotFoundError" for cmd
    by (simp add: no_rg_env_def)
  have 4: "subprocess_run nul_rejecting_env (invocations (fresh []))
      ([''rg'', convert_pattern [CHR 0x00]] @ default_args (self (fresh [])) @ []) = Inl ValueError
    \<and> ValueError \<noteq> FileNotFoundError"
    by (simp add: nul_rejecting_env_def convert_pattern_def py_replace_def)
  have 5: "subprocess_run undecodable_output_env (invocations (fresh [])) cmd = Inl UnicodeDecodeError
    \<and> UnicodeDecodeError \<noteq> FileNotFoundError" for cmd
    by (simp add: undecodable_output_env_def)
  have "init no_rg_env (Some [''--type'', ''py'']) = Inl ImportError"
    using 1 raised_errors [of no_rg_env] by blast
  moreover have "fst (search (fixed_output_env 2 []) (fresh []) ''x'' []) = Inr []
      \<and> (\<exists>ls. fst (lines (fixed_output_env 2 []) (fresh []) ''x'' []) = Inr ls)"
    using 2 raised_errors [of "fixed_output_env 2 []" _ "fresh []" "''x''" "[]"
        "\<lparr>returncode = 2, stdout = [], stderr = []\<rparr>"]
    by simp
  moreover have "\<exists>n. fst (count (fixed_output_env 2 []) (fresh []) ''x'' []) = Inr n"
    using 2 raised_errors [of "fixed_output_env 2 []" _ "fresh []" "''x''" "[]"
        "\<lparr>returncode = 2, stdout = [], stderr = []\<rparr>"]
    by simp
  moreover have "fst (search no_rg_env (fresh []) ''x'' []) = Inl ImportError
      \<and> fst (lines no_rg_env (fresh []) ''x'' []) = Inl ImportError
      \<and> fst (count no_rg_env (fresh []) ''x'' []) = Inl ImportError"
    using 3 raised_errors [of no_rg_env _ "fresh []" "''x''" "[]"] by simp
  moreover have "fst (search nul_rejecting_env (fresh []) [CHR 0x00] []) = Inl ValueError"
    using 4 raised_errors [of nul_rejecting_env _ "fresh []" "[CHR 0x00]" "[]" _ ValueError]
    by blast
  moreover have "fst (search undecodable_output_env (fresh []) ''x'' []) = Inl UnicodeDecodeError
      \<and> fst (lines undecodable_output_env (fresh []) ''x'' []) = Inl UnicodeDecodeError
      \<and> fst (count undecodable_output_env (fresh []) ''x'' []) = Inl UnicodeDecodeError"
    using 5 raised_errors
      [of undecodable_output_env _ "fresh []" "''x''" "[]" _ UnicodeDecodeError]
    by simp
  ultimately show ?thesis by simp
qed

text \<open>
  Claim C9. The default options of an instance are set when it is made and no operation
  changes them: after any sequence of \<open>search\<close>, \<open>lines\<close> and \<open>count\<close> calls on the
  instance they are the list given at construction (the empty list if none was given),
  and every command run was built with that list between the pattern and the extra
  arguments.
\<close>

theorem default_args_unchanged:
  assumes "init env given = Inr r"
  shows "default_args (self (do_calls env \<lparr>self = r, invocations = []\<rparr> calls)) =
           (case given of None \<Rightarrow> [] | Some options \<Rightarrow> options)
         \<and> invocations (do_calls env \<lparr>self = r, invocations = []\<rparr> calls) =
           map (expected_command (case given of None \<Rightarrow> [] | Some options \<Rightarrow> options)) calls"
proof -
  from assms have "default_args r = (case given of None \<Rightarrow> [] | Some options \<Rightarrow> options)"
    by (auto simp: init_def split: sum.splits option.splits if_splits)
  then show ?thesis
    by (simp add: do_calls_state)
qed

theorem default_args_unchanged_witness:
  "init (fixed_output_env 0 ''a.py:1'') (Some [''--type'', ''py'']) =
     Inr \<lparr>default_args = [''--type'', ''py'']\<rparr>
   \<and> default_args (self (do_calls (fixed_output_env 0 ''a.py:1'')
        \<lparr>self = \<lparr>default_args = [''--type'', ''py'']\<rparr>, invocations = []\<rparr>
        [Search ''('' [], Count ''<num>'' [''src''], Lines ''x'' [''-i'']])) = [''--type'', ''py'']
   \<and> invocations (do_calls (fixed_output_env 0 ''a.py:1'')
        \<lparr>self = \<lparr>default_args = [''--type'', ''py'']\<rparr>, invocations = []\<rparr>
        [Search ''('' [], Count ''<num>'' [''src''], Lines ''x'' [''-i'']]) =
       [[''rg'', BSL # ''('', ''--type'', ''py''],
        [''rg'', BSL # ''d+'', ''--type'', ''py'', ''-c'', ''src''],
        [''rg'', ''x'', ''--type'', ''py'', ''-i'']]"
proof -
  have made: "init (fixed_output_env 0 ''a.py:1'') (Some [''--type'', ''py'']) =
      Inr \<lparr>default_args = [''--type'', ''py'']\<rparr>"
    by (simp add: init_def check_ripgrep_def fixed_output_env_def)
  from default_args_unchanged [OF made,
      of "[Search ''('' [], Count ''<num>'' [''src''], Lines ''x'' [''-i'']]"] made
  show ?thesis
    by (simp add: convert_pattern_def py_replace_def)
qed

end
